theory Spec2Isabelle
  imports Complex_Main "HOL-Library.Word" "HOL-Library.Multiset" "HOL-Library.Log_Nat"
    "HOL-Library.Product_Lexorder"
begin

unbundle bit_operations_syntax

section \<open>Data model of srv.go\<close>

text \<open>
  A Go \<open>string\<close> is a sequence of bytes and \<open>len\<close> counts bytes; HOL's \<open>string\<close>
  is a list of 8-bit characters, so \<open>length\<close> is Go's \<open>len\<close>. A \<open>[]byte\<close> is a list
  of 8-bit words. \<open>Token.Start\<close> is an \<open>int64\<close>: a 64-bit word read with \<open>sint\<close>.
  \<open>RemainingHealth\<close> is only ever compared, never computed with, so it is an \<open>int\<close>.

  \<open>Elapsed\<close> is a \<open>float64\<close>. Scores enter the program only through
  \<open>json.Decoder.Decode\<close>, which fails on a number outside the finite range of
  \<open>float64\<close>, so every \<open>Elapsed\<close> the handlers see is finite, and finite floats are
  ordered as the real numbers they denote: \<open>Elapsed\<close> is a \<open>real\<close>.
\<close>

type_synonym byte = "8 word"
type_synonym int64 = "64 word"

record Token =
  Start :: int64
  Hmac :: string

record Score =
  PlayerName :: string
  Elapsed :: real
  RemainingHealth :: int
  Token :: Token

definition THRESHOLD :: int where
  "THRESHOLD = 5"

definition NUM_SCORES :: int where
  "NUM_SCORES = 20"

text \<open>The zero value \<open>Token{}\<close>.\<close>

definition zeroToken :: Token where
  "zeroToken = \<lparr>Start = 0, Hmac = []\<rparr>"

text \<open>
  The server. The mutex is not a field of the model: every operation below is one
  atomic transition of this record.
\<close>

record HighScoreServer =
  scores :: "Score list"
  hmacKey :: "byte list"
  adminPassword :: string

section \<open>Ranking\<close>

text \<open>
  \<open>cmp.Compare\<close> on an ordered type (its NaN branches do not apply to integers or to
  finite floats) and the variadic \<open>cmp.Or\<close>, the first argument that is not zero.
\<close>

definition cmp_Compare :: "'a::linorder \<Rightarrow> 'a \<Rightarrow> int" where
  "cmp_Compare x y = (if x < y then - 1 else if x > y then 1 else 0)"

fun cmp_Or :: "int list \<Rightarrow> int" where
  "cmp_Or [] = 0"
| "cmp_Or (v # vs) = (if v \<noteq> 0 then v else cmp_Or vs)"

definition scoreCmp :: "Score \<Rightarrow> Score \<Rightarrow> int" where
  "scoreCmp a b =
     cmp_Or [cmp_Compare (RemainingHealth a) (RemainingHealth b),
             - cmp_Compare (Elapsed a) (Elapsed b)]"

text \<open>
  \<open>slices.SortStableFunc\<close> is library code, modelled by its contract: the stable sort
  in which \<open>a\<close> goes before \<open>b\<close> when \<open>cmp a b < 0\<close>, here as the insertion sort that
  moves an element past exactly those later ones that are strictly smaller.
\<close>

fun insertStable :: "('a \<Rightarrow> 'a \<Rightarrow> int) \<Rightarrow> 'a \<Rightarrow> 'a list \<Rightarrow> 'a list" where
  "insertStable cmp x [] = [x]"
| "insertStable cmp x (y # ys) =
     (if cmp y x < 0 then y # insertStable cmp x ys else x # y # ys)"

definition SortStableFunc :: "('a \<Rightarrow> 'a \<Rightarrow> int) \<Rightarrow> 'a list \<Rightarrow> 'a list" where
  "SortStableFunc cmp xs = foldr (insertStable cmp) xs []"

datatype panic = SliceBoundsOutOfRange

text \<open>
  \<open>truncateAndGetScores\<close>: the slice is sorted in place, then \<open>s.scores[:t]\<close> is taken,
  which panics when \<open>t\<close> is negative (the sorted slice stays behind). The result is the
  returned slice, or the panic, together with the server afterwards.
\<close>

definition truncateAndGetScores ::
  "int \<Rightarrow> HighScoreServer \<Rightarrow> (panic + Score list) \<times> HighScoreServer" where
  "truncateAndGetScores n s =
     (let sorted = SortStableFunc scoreCmp (scores s);
          t = (if int (length sorted) < n then int (length sorted) else n)
      in if t < 0 then (Inl SliceBoundsOutOfRange, s\<lparr>scores := sorted\<rparr>)
         else (Inr (take (nat t) sorted), s\<lparr>scores := take (nat t) sorted\<rparr>))"

section \<open>Token codec\<close>

text \<open>
  \<open>binary.LittleEndian.PutUint64(b, uint64(v))\<close> on a fresh 8-byte slice: the
  conversion \<open>uint64\<close> keeps the bits, and byte \<open>i\<close> is \<open>byte(v >> (8 * i))\<close>.
\<close>

definition PutUint64 :: "int64 \<Rightarrow> byte list" where
  "PutUint64 v =
     [ucast v, ucast (drop_bit 8 v), ucast (drop_bit 16 v), ucast (drop_bit 24 v),
      ucast (drop_bit 32 v), ucast (drop_bit 40 v), ucast (drop_bit 48 v),
      ucast (drop_bit 56 v)]"

text \<open>
  \<open>hmac.New(sha256.New, key)\<close>, \<open>Write\<close> and \<open>Sum(nil)\<close> are the standard library's
  HMAC-SHA256. The handlers use it as a function of the key and the message, and take
  it as the parameter \<open>mac\<close>. \<open>hmac.Equal\<close> is equality of byte slices.
\<close>

type_synonym mac = "byte list \<Rightarrow> byte list \<Rightarrow> byte list"

text \<open>
  \<open>base64.StdEncoding\<close>, after the library's \<open>Encode\<close> and \<open>decodeQuantum\<close>. The
  library's \<open>uint\<close> accumulator holds at most 24 bits here and is a \<open>nat\<close>.
\<close>

definition encodeStd :: string where
  "encodeStd = ''ABCDEFGHIJKLMNOPQRSTUVWXYZabcdefghijklmnopqrstuvwxyz0123456789+/''"

definition padChar :: char where
  "padChar = CHR ''=''"

definition sextet :: "nat \<Rightarrow> nat \<Rightarrow> char" where
  "sextet k val = encodeStd ! (drop_bit k val AND 63)"

fun EncodeToString :: "byte list \<Rightarrow> string" where
  "EncodeToString [] = []"
| "EncodeToString [a] =
     (let val = push_bit 16 (unat a)
      in [sextet 18 val, sextet 12 val, padChar, padChar])"
| "EncodeToString [a, b] =
     (let val = push_bit 16 (unat a) OR push_bit 8 (unat b)
      in [sextet 18 val, sextet 12 val, sextet 6 val, padChar])"
| "EncodeToString (a # b # c # rest) =
     (let val = push_bit 16 (unat a) OR push_bit 8 (unat b) OR unat c
      in [sextet 18 val, sextet 12 val, sextet 6 val, sextet 0 val] @ EncodeToString rest)"

text \<open>
  The decode table maps each character of the alphabet to its index; every other
  character (the pad character too) has no entry (\<open>0xFF\<close> in the library).
\<close>

definition decodeMap :: "char \<Rightarrow> nat option" where
  "decodeMap = map_of (zip encodeStd [0 ..< 64])"

definition assemble :: "nat \<Rightarrow> nat \<Rightarrow> nat \<Rightarrow> nat \<Rightarrow> nat" where
  "assemble x y z w = push_bit 18 x OR push_bit 12 y OR push_bit 6 z OR w"

definition byteAt :: "nat \<Rightarrow> nat \<Rightarrow> byte" where
  "byteAt k val = of_nat (drop_bit k val)"

text \<open>
  One quantum of four characters gives three bytes; the last quantum may end in one or
  two pad characters and gives two bytes or one (the encoding is not strict: left-over
  bits are dropped); anything after the padding, and an incomplete quantum, is corrupt
  input.
\<close>

fun decodeQuanta :: "string \<Rightarrow> byte list option" where
  "decodeQuanta [] = Some []"
| "decodeQuanta (a # b # c # d # rest) =
     (case (decodeMap a, decodeMap b) of
        (Some x, Some y) \<Rightarrow>
          (case decodeMap c of
             Some z \<Rightarrow>
               (case decodeMap d of
                  Some w \<Rightarrow>
                    (case decodeQuanta rest of
                       Some bs \<Rightarrow>
                         Some (byteAt 16 (assemble x y z w) # byteAt 8 (assemble x y z w)
                                 # byteAt 0 (assemble x y z w) # bs)
                     | None \<Rightarrow> None)
                | None \<Rightarrow>
                    (if d = padChar \<and> rest = []
                     then Some [byteAt 16 (assemble x y z 0), byteAt 8 (assemble x y z 0)]
                     else None))
           | None \<Rightarrow>
               (if c = padChar \<and> d = padChar \<and> rest = []
                then Some [byteAt 16 (assemble x y 0 0)]
                else None))
      | _ \<Rightarrow> None)"
| "decodeQuanta _ = None"

text \<open>Carriage returns and line feeds are skipped wherever they stand.\<close>

definition DecodeString :: "string \<Rightarrow> byte list option" where
  "DecodeString s = decodeQuanta (filter (\<lambda>c. c \<noteq> CHR 0x0A \<and> c \<noteq> CHR 0x0D) s)"

text \<open>
  \<open>getToken\<close>, with the clock reading \<open>time.Now().Unix()\<close> as the input \<open>t\<close>: the
  status written, the token encoded into the response, and the server (unchanged).
\<close>

definition StatusOK :: nat where "StatusOK = 200"
definition StatusCreated :: nat where "StatusCreated = 201"
definition StatusBadRequest :: nat where "StatusBadRequest = 400"
definition StatusForbidden :: nat where "StatusForbidden = 403"

definition getToken :: "mac \<Rightarrow> int64 \<Rightarrow> HighScoreServer \<Rightarrow> (nat \<times> Token) \<times> HighScoreServer" where
  "getToken hmac t s =
     (let b = PutUint64 t;
          result = hmac (hmacKey s) b;
          token = EncodeToString result
      in ((StatusCreated, \<lparr>Start = t, Hmac = token\<rparr>), s))"

section \<open>Submission\<close>

text \<open>
  The conversion \<open>float64(x)\<close> of an \<open>int64\<close>: exact below \<open>2 ^ 53\<close> in magnitude,
  otherwise rounded to the nearest float with a 53-bit significand, ties to even.
\<close>

definition roundSignificand :: "nat \<Rightarrow> nat" where
  "roundSignificand a =
     (if a < 2 ^ 53 then a
      else let e = floorlog 2 a - 53; q = a div 2 ^ e; r = a mod 2 ^ e; h = 2 ^ (e - 1)
           in (if h < r \<or> (r = h \<and> odd q) then q + 1 else q) * 2 ^ e)"

definition float64 :: "int64 \<Rightarrow> real" where
  "float64 x =
     (if sint x < 0 then - real (roundSignificand (nat (- sint x)))
      else real (roundSignificand (nat (sint x))))"

definition wallClockElapsed :: "int64 \<Rightarrow> int64 \<Rightarrow> real" where
  "wallClockElapsed t start = float64 (t - start)"

text \<open>
  The request body after \<open>json.NewDecoder(r.Body).Decode(&newScore)\<close>: an error, or
  the decoded score. What the handler leaves behind: the status, and the line it wrote
  to the log, if any.
\<close>

datatype 'a decoded = DecodeError string | Decoded 'a

datatype logline = OddElapsed real real | ClearedScores

record Reply =
  status :: nat
  logged :: "logline list"

definition reply :: "nat \<Rightarrow> Reply" where
  "reply c = \<lparr>status = c, logged = []\<rparr>"

definition addScore ::
  "mac \<Rightarrow> int64 \<Rightarrow> Score decoded \<Rightarrow> HighScoreServer \<Rightarrow> Reply \<times> HighScoreServer" where
  "addScore hmac now body s =
     (case body of
        DecodeError err \<Rightarrow> (reply StatusBadRequest, s)
      | Decoded newScore \<Rightarrow>
          (let b = PutUint64 (Start (Token newScore));
               result = hmac (hmacKey s) b
           in case DecodeString (Hmac (Token newScore)) of
                None \<Rightarrow> (reply StatusBadRequest, s)
              | Some signature \<Rightarrow>
                  if signature \<noteq> result then (reply StatusBadRequest, s)
                  else if RemainingHealth newScore < 0 then (reply StatusBadRequest, s)
                  else if length (PlayerName newScore) < 1 \<or> length (PlayerName newScore) > 3
                    then (reply StatusBadRequest, s)
                  else if wallClockElapsed now (Start (Token newScore)) < Elapsed newScore
                    then (\<lparr>status = StatusBadRequest,
                           logged = [OddElapsed (Elapsed newScore)
                                       (wallClockElapsed now (Start (Token newScore)))]\<rparr>, s)
                  else (reply StatusCreated,
                        s\<lparr>scores := scores s @ [newScore\<lparr>Token := zeroToken\<rparr>]\<rparr>)))"

section \<open>Reset, streaming and the server as a whole\<close>

text \<open>The request after \<open>r.ParseForm()\<close>: an error, or the form with its \<open>pw\<close> value.\<close>

datatype form = ParseFormError | Form string

definition resetScore :: "form \<Rightarrow> HighScoreServer \<Rightarrow> Reply \<times> HighScoreServer" where
  "resetScore f s =
     (case f of
        ParseFormError \<Rightarrow> (reply StatusBadRequest, s)
      | Form pw \<Rightarrow>
          if pw = adminPassword s
          then (\<lparr>status = StatusOK, logged = [ClearedScores]\<rparr>, s\<lparr>scores := []\<rparr>)
          else (reply StatusForbidden, s))"

text \<open>One tick of \<open>stream\<close>: the only call of \<open>truncateAndGetScores\<close>.\<close>

definition streamTick :: "HighScoreServer \<Rightarrow> (panic + Score list) \<times> HighScoreServer" where
  "streamTick srv = truncateAndGetScores NUM_SCORES srv"

text \<open>The server that \<open>main\<close> builds, and the requests its handlers serve.\<close>

definition newServer :: "byte list \<Rightarrow> string \<Rightarrow> HighScoreServer" where
  "newServer key pw = \<lparr>scores = [], hmacKey = key, adminPassword = pw\<rparr>"

datatype request =
    PostStart int64
  | PostRecord int64 "Score decoded"
  | PostReset form
  | EventsTick

fun serve :: "mac \<Rightarrow> HighScoreServer \<Rightarrow> request \<Rightarrow> HighScoreServer" where
  "serve hmac s (PostStart t) = snd (getToken hmac t s)"
| "serve hmac s (PostRecord now body) = snd (addScore hmac now body s)"
| "serve hmac s (PostReset f) = snd (resetScore f s)"
| "serve hmac s EventsTick = snd (streamTick s)"

definition run :: "mac \<Rightarrow> HighScoreServer \<Rightarrow> request list \<Rightarrow> HighScoreServer" where
  "run hmac s rs = foldl (serve hmac) s rs"

section \<open>Notions the properties are stated with\<close>

text \<open>
  The token check inside \<open>addScore\<close> (the recomputed MAC, the base64 decoding of the
  \<open>hmac\<close> field and \<open>hmac.Equal\<close>) as a predicate on the token.
\<close>

definition Verify :: "mac \<Rightarrow> HighScoreServer \<Rightarrow> Token \<Rightarrow> bool" where
  "Verify hmac s tok =
     (let b = PutUint64 (Start tok);
          result = hmac (hmacKey s) b
      in case DecodeString (Hmac tok) of
           None \<Rightarrow> False
         | Some signature \<Rightarrow> signature = result)"

text \<open>
  The order \<open>scoreCmp\<close> sorts by: \<open>a\<close> may stand before \<open>b\<close> when \<open>a\<close> has less
  health, or the same health and at least the elapsed time of \<open>b\<close>.
\<close>

definition rankedBefore :: "Score \<Rightarrow> Score \<Rightarrow> bool" where
  "rankedBefore a b \<longleftrightarrow>
     RemainingHealth a < RemainingHealth b
     \<or> (RemainingHealth a = RemainingHealth b \<and> Elapsed b \<le> Elapsed a)"

text \<open>The same order as a sort key, under the lexicographic order of pairs.\<close>

definition rankKey :: "Score \<Rightarrow> int \<times> real" where
  "rankKey sc = (RemainingHealth sc, - Elapsed sc)"

text \<open>
  The order of the written specification: health descending, ties by elapsed time
  ascending.
\<close>

definition specRankedBefore :: "Score \<Rightarrow> Score \<Rightarrow> bool" where
  "specRankedBefore a b \<longleftrightarrow>
     RemainingHealth b < RemainingHealth a
     \<or> (RemainingHealth a = RemainingHealth b \<and> Elapsed a \<le> Elapsed b)"

text \<open>
  The character count of a string, as \<open>utf8.RuneCountInString\<close> counts: the width of
  the first rune is that of a well-formed UTF-8 sequence, and 1 for a byte that starts
  none. \<open>addScore\<close> does not call it; the specification speaks of characters.
\<close>

definition inRange :: "nat \<Rightarrow> nat \<Rightarrow> char \<Rightarrow> bool" where
  "inRange lo hi c \<longleftrightarrow> lo \<le> of_char c \<and> of_char c \<le> hi"

fun runeWidth :: "string \<Rightarrow> nat" where
  "runeWidth [] = 0"
| "runeWidth (c # cs) =
     (if inRange 0xC2 0xDF c then
        (case cs of c1 # _ \<Rightarrow> if inRange 0x80 0xBF c1 then 2 else 1 | _ \<Rightarrow> 1)
      else if inRange 0xE0 0xEF c then
        (case cs of
           c1 # c2 # _ \<Rightarrow>
             if inRange (if c = CHR 0xE0 then 0xA0 else 0x80)
                  (if c = CHR 0xED then 0x9F else 0xBF) c1
                \<and> inRange 0x80 0xBF c2
             then 3 else 1
         | _ \<Rightarrow> 1)
      else if inRange 0xF0 0xF4 c then
        (case cs of
           c1 # c2 # c3 # _ \<Rightarrow>
             if inRange (if c = CHR 0xF0 then 0x90 else 0x80)
                  (if c = CHR 0xF4 then 0x8F else 0xBF) c1
                \<and> inRange 0x80 0xBF c2 \<and> inRange 0x80 0xBF c3
             then 4 else 1
         | _ \<Rightarrow> 1)
      else 1)"

function RuneCountInString :: "string \<Rightarrow> nat" where
  "RuneCountInString [] = 0"
| "RuneCountInString (c # cs) = Suc (RuneCountInString (drop (runeWidth (c # cs) - 1) cs))"
  by pat_completeness auto
termination
  by (relation "measure length") (simp_all del: runeWidth.simps)

text \<open>Every stored score carries the zero token.\<close>

definition tokensZero :: "HighScoreServer \<Rightarrow> bool" where
  "tokensZero s \<longleftrightarrow> list_all (\<lambda>sc. Token sc = zeroToken) (scores s)"

text \<open>
  Concrete inputs for running the handlers. \<open>demoMac\<close> stands in for HMAC-SHA256 there:
  the handlers only apply the MAC and compare its results.
\<close>

definition demoMac :: mac where
  "demoMac key msg = key @ msg"

definition demoServer :: HighScoreServer where
  "demoServer = newServer [1, 2, 3] ''changeme''"

definition demoToken :: Token where
  "demoToken = snd (fst (getToken demoMac 1700000000 demoServer))"

definition scoreBBB :: Score where
  "scoreBBB = \<lparr>PlayerName = ''BBB'', Elapsed = 10, RemainingHealth = 80, Token = zeroToken\<rparr>"

definition scoreCCC :: Score where
  "scoreCCC = \<lparr>PlayerName = ''CCC'', Elapsed = 5, RemainingHealth = 80, Token = zeroToken\<rparr>"

definition scoreAAA :: Score where
  "scoreAAA = \<lparr>PlayerName = ''AAA'', Elapsed = 0, RemainingHealth = 50, Token = demoToken\<rparr>"

definition scoreDDD :: Score where
  "scoreDDD = \<lparr>PlayerName = ''DDD'', Elapsed = 5, RemainingHealth = 80, Token = zeroToken\<rparr>"

text \<open>
  A valid submission with health \<open>h\<close> under the issued token, the score as it is
  stored once accepted, and the request that posts it a minute after the token was
  issued.
\<close>

definition submission :: "int \<Rightarrow> Score" where
  "submission h = \<lparr>PlayerName = ''AAA'', Elapsed = 0, RemainingHealth = h, Token = demoToken\<rparr>"

definition admitted :: "int \<Rightarrow> Score" where
  "admitted h = (submission h)\<lparr>Token := zeroToken\<rparr>"

definition postRecord :: "int \<Rightarrow> request" where
  "postRecord h = PostRecord 1700000060 (Decoded (submission h))"

section \<open>Properties of the ranking\<close>

lemma scoreCmp_neg_iff:
  "scoreCmp a b < 0 \<longleftrightarrow>
     RemainingHealth a < RemainingHealth b
     \<or> (RemainingHealth a = RemainingHealth b \<and> Elapsed b < Elapsed a)"
  by (auto simp: scoreCmp_def cmp_Compare_def)

lemma rankedBefore_iff: "rankedBefore a b \<longleftrightarrow> \<not> scoreCmp b a < 0"
  by (auto simp: rankedBefore_def scoreCmp_neg_iff)

lemma rankedBefore_trans: "rankedBefore a b \<Longrightarrow> rankedBefore b c \<Longrightarrow> rankedBefore a c"
  by (auto simp: rankedBefore_def)

lemma rankedBefore_total: "rankedBefore a b \<or> rankedBefore b a"
  by (auto simp: rankedBefore_def)

lemma set_insertStable: "set (insertStable cmp x ys) = insert x (set ys)"
  by (induction ys) auto

lemma length_insertStable: "length (insertStable cmp x ys) = Suc (length ys)"
  by (induction ys) auto

lemma mset_insertStable: "mset (insertStable cmp x ys) = add_mset x (mset ys)"
  by (induction ys) auto

lemma length_SortStableFunc: "length (SortStableFunc cmp xs) = length xs"
  by (induction xs) (auto simp: SortStableFunc_def length_insertStable)

lemma mset_SortStableFunc: "mset (SortStableFunc cmp xs) = mset xs"
  by (induction xs) (auto simp: SortStableFunc_def mset_insertStable)

lemma sorted_insertStable:
  "sorted_wrt rankedBefore ys \<Longrightarrow> sorted_wrt rankedBefore (insertStable scoreCmp x ys)"
proof (induction ys)
  case Nil
  then show ?case by simp
next
  case (Cons y ys)
  show ?case
  proof (cases "scoreCmp y x < 0")
    case True
    then have "rankedBefore y x"
      using rankedBefore_total [of x y] by (simp add: rankedBefore_iff)
    with Cons True show ?thesis
      by (auto simp: set_insertStable)
  next
    case False
    then have xy: "rankedBefore x y" by (simp add: rankedBefore_iff)
    with Cons.prems have "\<forall>z\<in>set ys. rankedBefore x z"
      by (auto intro: rankedBefore_trans)
    with Cons.prems xy False show ?thesis by simp
  qed
qed

lemma sorted_SortStableFunc: "sorted_wrt rankedBefore (SortStableFunc scoreCmp xs)"
  by (induction xs) (auto simp: SortStableFunc_def sorted_insertStable)

text \<open>The sort is stable: scores with the same health and time keep their order.\<close>

lemma filter_insertStable:
  "filter (\<lambda>y. RemainingHealth y = h \<and> Elapsed y = e) (insertStable scoreCmp x ys) =
   filter (\<lambda>y. RemainingHealth y = h \<and> Elapsed y = e) (x # ys)"
  by (induction ys) (auto simp: scoreCmp_neg_iff)

lemma SortStableFunc_stable:
  "filter (\<lambda>y. RemainingHealth y = h \<and> Elapsed y = e) (SortStableFunc scoreCmp xs) =
   filter (\<lambda>y. RemainingHealth y = h \<and> Elapsed y = e) xs"
proof (induction xs)
  case Nil
  then show ?case by (simp add: SortStableFunc_def)
next
  case (Cons x xs)
  have "SortStableFunc scoreCmp (x # xs) = insertStable scoreCmp x (SortStableFunc scoreCmp xs)"
    by (simp add: SortStableFunc_def)
  with Cons show ?case by (simp only: filter_insertStable) simp
qed

text \<open>Sorting a sorted slice changes nothing.\<close>

lemma insertStable_front:
  "sorted_wrt rankedBefore (x # ys) \<Longrightarrow> insertStable scoreCmp x ys = x # ys"
  by (cases ys) (auto simp: rankedBefore_iff)

lemma SortStableFunc_sorted:
  "sorted_wrt rankedBefore xs \<Longrightarrow> SortStableFunc scoreCmp xs = xs"
proof (induction xs)
  case Nil
  then show ?case by (simp add: SortStableFunc_def)
next
  case (Cons x xs)
  then have "SortStableFunc scoreCmp xs = xs" by simp
  then have "SortStableFunc scoreCmp (x # xs) = insertStable scoreCmp x xs"
    by (simp add: SortStableFunc_def)
  with Cons.prems show ?case by (simp only: insertStable_front)
qed

lemma truncateAndGetScores_nonneg:
  "0 \<le> n \<Longrightarrow> truncateAndGetScores n s =
     (Inr (take (nat n) (SortStableFunc scoreCmp (scores s))),
      s\<lparr>scores := take (nat n) (SortStableFunc scoreCmp (scores s))\<rparr>)"
  by (auto simp: truncateAndGetScores_def Let_def length_SortStableFunc)

lemma truncateAndGetScores_neg:
  "n < 0 \<Longrightarrow> truncateAndGetScores n s =
     (Inl SliceBoundsOutOfRange, s\<lparr>scores := SortStableFunc scoreCmp (scores s)\<rparr>)"
  by (auto simp: truncateAndGetScores_def Let_def)

text \<open>
  With \<open>scoreCmp\<close> the model is the library's stable \<open>sort_key\<close>, and so the only
  sorted rearrangement of the slice that keeps equal keys in their order: any
  implementation of a stable sort returns it.
\<close>

lemma rankKey_le_iff: "rankKey a \<le> rankKey b \<longleftrightarrow> rankedBefore a b"
  by (auto simp: rankKey_def less_eq_prod_def rankedBefore_def)

lemma insertStable_insort_key: "insertStable scoreCmp x ys = insort_key rankKey x ys"
  by (induction ys) (auto simp: rankKey_le_iff rankedBefore_iff)

lemma SortStableFunc_sort_key: "SortStableFunc scoreCmp xs = sort_key rankKey xs"
  by (induction xs) (simp_all add: SortStableFunc_def insertStable_insort_key)

lemma SortStableFunc_unique:
  assumes "mset ys = mset xs" and "sorted_wrt rankedBefore ys"
    and "\<And>k. k \<in> set ys \<Longrightarrow>
           filter (\<lambda>y. rankKey k = rankKey y) ys = filter (\<lambda>y. rankKey k = rankKey y) xs"
  shows "SortStableFunc scoreCmp xs = ys"
proof -
  have "sorted (map rankKey ys)"
    using assms(2) by (simp add: sorted_map rankKey_le_iff)
  with assms(1,3) have "sort_key rankKey xs = ys"
    by (intro properties_for_sort_key) auto
  then show ?thesis by (simp add: SortStableFunc_sort_key)
qed

lemma set_SortStableFunc: "set (SortStableFunc cmp xs) = set xs"
  using mset_SortStableFunc [of cmp xs] by (rule mset_eq_setD)

lemma sort_BBB_CCC:
  "SortStableFunc scoreCmp [scoreBBB, scoreCCC] = [scoreBBB, scoreCCC]"
  "SortStableFunc scoreCmp [scoreCCC, scoreBBB] = [scoreBBB, scoreCCC]"
  by (simp_all add: SortStableFunc_def scoreCmp_def cmp_Compare_def scoreBBB_def scoreCCC_def)

text \<open>What \<open>truncateAndGetScores\<close> returns is in the order of \<open>scoreCmp\<close>.\<close>

lemma truncateAndGetScores_sorted:
  assumes "0 \<le> n"
  shows "\<exists>r. fst (truncateAndGetScores n s) = Inr r \<and> sorted_wrt rankedBefore r
           \<and> int (length r) \<le> n \<and> set r \<subseteq> set (scores s)"
proof -
  let ?r = "take (nat n) (SortStableFunc scoreCmp (scores s))"
  have "fst (truncateAndGetScores n s) = Inr ?r"
    using assms by (simp add: truncateAndGetScores_nonneg)
  moreover have "sorted_wrt rankedBefore ?r"
    by (rule sorted_wrt_take) (rule sorted_SortStableFunc)
  moreover have "int (length ?r) \<le> n" using assms by simp
  moreover have "set ?r \<subseteq> set (scores s)"
    using set_take_subset [of "nat n" "SortStableFunc scoreCmp (scores s)"]
    by (simp add: set_SortStableFunc)
  ultimately show ?thesis by blast
qed

lemma insertStable_last:
  "\<forall>y \<in> set ys. cmp y x < 0 \<Longrightarrow> insertStable cmp x ys = ys @ [x]"
  by (induction ys) auto

section \<open>Properties of the base64 codec\<close>

lemma length_encodeStd: "length encodeStd = 64"
  by (simp add: encodeStd_def)

lemma distinct_encodeStd: "distinct encodeStd"
  by (simp add: encodeStd_def)

lemma decodeMap_encodeStd: "n < 64 \<Longrightarrow> decodeMap (encodeStd ! n) = Some n"
  unfolding decodeMap_def
  using map_of_zip_nth [of encodeStd "[0 ..< 64]" n]
  by (simp add: length_encodeStd distinct_encodeStd)

lemma bit_and63: "bit (x AND 63 :: nat) n \<longleftrightarrow> bit x n \<and> n < 6"
proof -
  have m: "(63::nat) = mask 6" by (simp add: mask_eq_exp_minus_1)
  show ?thesis unfolding m by (auto simp: bit_and_iff bit_mask_iff)
qed

lemma and63_less: "(x AND 63 :: nat) < 64"
proof -
  have m: "(63::nat) = mask 6" by (simp add: mask_eq_exp_minus_1)
  have "x AND mask 6 < 2 ^ 6"
    unfolding take_bit_eq_mask [symmetric] by (rule take_bit_nat_less_exp)
  then show ?thesis unfolding m by simp
qed

lemma decodeMap_sextet: "decodeMap (sextet k val) = Some (drop_bit k val AND 63)"
  by (simp only: sextet_def decodeMap_encodeStd and63_less)

lemma sextet_in: "sextet k val \<in> set encodeStd"
  unfolding sextet_def by (rule nth_mem) (simp only: length_encodeStd and63_less)

lemma decodeMap_padChar: "decodeMap padChar = None"
proof -
  have "padChar \<notin> set encodeStd" by (simp add: encodeStd_def padChar_def)
  moreover have "map fst (zip encodeStd [0 ..< 64]) = encodeStd"
    by (rule map_fst_zip) (simp add: length_encodeStd)
  ultimately show ?thesis
    unfolding decodeMap_def map_of_eq_None_iff set_map [symmetric] by simp
qed

lemma bit_unat_byte: "bit (unat (a::byte)) n \<longleftrightarrow> n < 8 \<and> bit a n"
  by (auto simp: bit_unsigned_iff dest: bit_imp_le_length)

lemma bit_field:
  "bit (push_bit k (drop_bit k val AND 63)) n \<longleftrightarrow> k \<le> n \<and> n < k + 6 \<and> bit (val::nat) n"
  unfolding bit_push_bit_iff bit_and63 bit_drop_bit_eq
  by (auto simp: less_diff_conv2 add.commute)

lemma assemble4:
  assumes "\<And>n. bit val n \<Longrightarrow> n < 24"
  shows "assemble (drop_bit 18 val AND 63) (drop_bit 12 val AND 63)
           (drop_bit 6 val AND 63) (drop_bit 0 val AND 63) = val"
proof (rule bit_eqI)
  fix n
  have "bit (drop_bit 0 val AND 63) n \<longleftrightarrow> n < 6 \<and> bit val n"
    using bit_field [of 0 val n] by simp
  then show "bit (assemble (drop_bit 18 val AND 63) (drop_bit 12 val AND 63)
           (drop_bit 6 val AND 63) (drop_bit 0 val AND 63)) n = bit val n"
    unfolding assemble_def bit_or_iff bit_field using assms [of n] by auto
qed

lemma assemble3:
  assumes "\<And>n. bit val n \<Longrightarrow> 6 \<le> n \<and> n < 24"
  shows "assemble (drop_bit 18 val AND 63) (drop_bit 12 val AND 63)
           (drop_bit 6 val AND 63) 0 = val"
proof (rule bit_eqI)
  fix n
  show "bit (assemble (drop_bit 18 val AND 63) (drop_bit 12 val AND 63)
           (drop_bit 6 val AND 63) 0) n = bit val n"
    unfolding assemble_def bit_or_iff bit_field using assms [of n] by auto
qed

lemma assemble2:
  assumes "\<And>n. bit val n \<Longrightarrow> 12 \<le> n \<and> n < 24"
  shows "assemble (drop_bit 18 val AND 63) (drop_bit 12 val AND 63) 0 0 = val"
proof (rule bit_eqI)
  fix n
  have z: "push_bit 6 (0::nat) = 0" by simp
  show "bit (assemble (drop_bit 18 val AND 63) (drop_bit 12 val AND 63) 0 0) n = bit val n"
    unfolding assemble_def bit_or_iff bit_field z using assms [of n] by auto
qed

lemma bit_quantum:
  "bit (push_bit 16 (unat (a::byte)) OR push_bit 8 (unat (b::byte)) OR unat (c::byte)) n \<longleftrightarrow>
     (16 \<le> n \<and> n < 24 \<and> bit a (n - 16)) \<or> (8 \<le> n \<and> n < 16 \<and> bit b (n - 8))
     \<or> (n < 8 \<and> bit c n)"
  unfolding bit_or_iff bit_push_bit_iff bit_unat_byte
  by auto

lemma bit_byteAt: "bit (byteAt k val) n \<longleftrightarrow> n < 8 \<and> bit val (k + n)"
  unfolding byteAt_def bit_of_nat_iff bit_drop_bit_eq by (auto simp: add.commute)

lemma byteAt_quantum:
  fixes a b c :: byte
  defines "val \<equiv> push_bit 16 (unat a) OR push_bit 8 (unat b) OR unat c"
  shows "byteAt 16 val = a" "byteAt 8 val = b" "byteAt 0 val = c"
  unfolding val_def
  by (rule bit_word_eqI; simp only: bit_byteAt bit_quantum; auto dest: bit_imp_le_length)+

text \<open>Decoding undoes encoding, for every byte sequence.\<close>

lemma decodeQuanta_EncodeToString: "decodeQuanta (EncodeToString bs) = Some bs"
proof (induction bs rule: EncodeToString.induct)
  case 1
  then show ?case by simp
next
  case (2 a)
  define val where "val = push_bit 16 (unat a) OR push_bit 8 (unat (0::byte)) OR unat (0::byte)"
  have v: "push_bit 16 (unat a) = val" by (simp add: val_def)
  have "\<And>n. bit val n \<Longrightarrow> 12 \<le> n \<and> n < 24"
    unfolding val_def bit_quantum by auto
  then have "assemble (drop_bit 18 val AND 63) (drop_bit 12 val AND 63) 0 0 = val"
    by (rule assemble2)
  moreover have "byteAt 16 val = a" unfolding val_def by (rule byteAt_quantum)
  ultimately show ?case
    by (simp add: v Let_def decodeMap_sextet decodeMap_padChar)
next
  case (3 a b)
  define val where "val = push_bit 16 (unat a) OR push_bit 8 (unat b) OR unat (0::byte)"
  have v: "push_bit 16 (unat a) OR push_bit 8 (unat b) = val" by (simp add: val_def)
  have "\<And>n. bit val n \<Longrightarrow> 6 \<le> n \<and> n < 24"
    unfolding val_def bit_quantum by auto
  then have "assemble (drop_bit 18 val AND 63) (drop_bit 12 val AND 63)
      (drop_bit 6 val AND 63) 0 = val"
    by (rule assemble3)
  moreover have "byteAt 16 val = a" "byteAt 8 val = b"
    unfolding val_def by (rule byteAt_quantum)+
  ultimately show ?case
    by (simp add: v Let_def decodeMap_sextet decodeMap_padChar)
next
  case (4 a b c rest)
  define val where "val = push_bit 16 (unat a) OR push_bit 8 (unat b) OR unat c"
  have "\<And>n. bit val n \<Longrightarrow> n < 24"
    unfolding val_def bit_quantum by auto
  then have "assemble (drop_bit 18 val AND 63) (drop_bit 12 val AND 63)
      (drop_bit 6 val AND 63) (drop_bit 0 val AND 63) = val"
    by (rule assemble4)
  moreover have "byteAt 16 val = a" "byteAt 8 val = b" "byteAt 0 val = c"
    unfolding val_def by (rule byteAt_quantum)+
  ultimately show ?case using 4
    by (simp add: val_def [symmetric] Let_def decodeMap_sextet)
qed

lemma set_EncodeToString:
  "set (EncodeToString bs) \<subseteq> insert padChar (set encodeStd)"
  by (induction bs rule: EncodeToString.induct) (auto simp: Let_def sextet_in)

lemma DecodeString_EncodeToString: "DecodeString (EncodeToString bs) = Some bs"
proof -
  have "\<forall>c \<in> set (EncodeToString bs). c \<noteq> CHR 0x0A \<and> c \<noteq> CHR 0x0D"
    using set_EncodeToString [of bs] by (auto simp: encodeStd_def padChar_def)
  then have "filter (\<lambda>c. c \<noteq> CHR 0x0A \<and> c \<noteq> CHR 0x0D) (EncodeToString bs) = EncodeToString bs"
    by (simp add: filter_id_conv)
  then show ?thesis by (simp add: DecodeString_def decodeQuanta_EncodeToString)
qed

section \<open>Properties of the handlers\<close>

text \<open>A token that \<open>getToken\<close> issues passes the check of \<open>addScore\<close>.\<close>

lemma Verify_getToken: "Verify hmac s (snd (fst (getToken hmac t s)))"
  by (simp add: Verify_def getToken_def Let_def DecodeString_EncodeToString)

text \<open>\<open>addScore\<close>, check by check.\<close>

lemma addScore_DecodeError: "addScore hmac now (DecodeError err) s = (reply StatusBadRequest, s)"
  by (simp add: addScore_def)

lemma addScore_Decoded:
  "addScore hmac now (Decoded sc) s =
     (if \<not> Verify hmac s (Token sc) then (reply StatusBadRequest, s)
      else if RemainingHealth sc < 0 then (reply StatusBadRequest, s)
      else if length (PlayerName sc) < 1 \<or> length (PlayerName sc) > 3
        then (reply StatusBadRequest, s)
      else if wallClockElapsed now (Start (Token sc)) < Elapsed sc
        then (\<lparr>status = StatusBadRequest,
               logged = [OddElapsed (Elapsed sc) (wallClockElapsed now (Start (Token sc)))]\<rparr>, s)
      else (reply StatusCreated, s\<lparr>scores := scores s @ [sc\<lparr>Token := zeroToken\<rparr>]\<rparr>))"
  by (simp add: addScore_def Verify_def Let_def split: option.splits)

lemma Verify_iff:
  "Verify hmac s tok \<longleftrightarrow>
     DecodeString (Hmac tok) = Some (hmac (hmacKey s) (PutUint64 (Start tok)))"
  by (auto simp: Verify_def Let_def split: option.splits)

text \<open>
  Below \<open>2 ^ 53\<close> the conversion to \<open>float64\<close> is exact, and where the subtraction
  does not overflow either, \<open>wallClockElapsed\<close> is the difference of the two clock
  readings.
\<close>

lemma roundSignificand_small: "a < 2 ^ 53 \<Longrightarrow> roundSignificand a = a"
  by (simp add: roundSignificand_def)

lemma float64_exact:
  assumes "\<bar>sint x\<bar> < 2 ^ 53"
  shows "float64 x = real_of_int (sint x)"
proof (cases "sint x < 0")
  case True
  with assms have "nat (- sint x) < 2 ^ 53" by (simp add: nat_less_iff)
  with True show ?thesis by (simp add: float64_def roundSignificand_small)
next
  case False
  with assms have "nat (sint x) < 2 ^ 53" by (simp add: nat_less_iff)
  with False show ?thesis by (simp add: float64_def roundSignificand_small)
qed

lemma wallClockElapsed_exact:
  assumes "\<bar>sint now - sint start\<bar> < 2 ^ 53"
  shows "wallClockElapsed now start = real_of_int (sint now - sint start)"
proof -
  have "- (2 ^ 63) \<le> sint now - sint start" "sint now - sint start < 2 ^ 63"
    using assms by auto
  then have "sint (now - start) = sint now - sint start"
    by (simp add: sint_word_diff signed_take_bit_int_eq_self)
  with assms show ?thesis
    by (simp add: wallClockElapsed_def float64_exact)
qed

lemma wallClockElapsed_same: "wallClockElapsed t t = 0"
  by (simp add: wallClockElapsed_def float64_def roundSignificand_def)

text \<open>A string has at most as many characters as bytes.\<close>

lemma RuneCount_le_length: "RuneCountInString cs \<le> length cs"
  by (induction cs rule: RuneCountInString.induct) (simp_all del: runeWidth.simps)

lemma RuneCount_zero_iff: "RuneCountInString cs = 0 \<longleftrightarrow> cs = []"
  by (cases cs) simp_all

lemma addScore_status:
  "status (fst (addScore hmac now body s)) = StatusCreated
   \<or> (status (fst (addScore hmac now body s)) = StatusBadRequest \<and> snd (addScore hmac now body s) = s)"
  by (cases body) (auto simp: addScore_DecodeError addScore_Decoded reply_def)

text \<open>The concrete inputs.\<close>

lemma Verify_demoToken: "Verify demoMac demoServer demoToken"
  unfolding demoToken_def by (rule Verify_getToken)

lemma Start_demoToken: "Start demoToken = 1700000000"
  by (simp add: demoToken_def getToken_def Let_def)

lemma scoreAAA_simps:
  "PlayerName scoreAAA = ''AAA''" "Elapsed scoreAAA = 0" "RemainingHealth scoreAAA = 50"
  "Token scoreAAA = demoToken"
  by (simp_all add: scoreAAA_def)

lemma wallClockElapsed_demo: "wallClockElapsed 1700000060 1700000000 = 60"
  by (simp add: wallClockElapsed_def float64_def roundSignificand_def)

lemma PutUint64_demo:
  "PutUint64 1700000000 \<noteq> PutUint64 1699999000"
  by (simp add: PutUint64_def)

text \<open>A run of valid submissions appends them, in order.\<close>

lemma serve_record:
  assumes "hmacKey s = hmacKey demoServer" and "0 \<le> h"
  shows "serve demoMac s (postRecord h) = s\<lparr>scores := scores s @ [admitted h]\<rparr>"
proof -
  have "Verify demoMac s demoToken"
    using Verify_demoToken assms(1) by (simp add: Verify_iff)
  with assms(2) show ?thesis
    by (simp add: postRecord_def addScore_Decoded submission_def admitted_def Start_demoToken
          wallClockElapsed_demo)
qed

lemma run_records:
  assumes "hmacKey s = hmacKey demoServer" and "\<forall>h \<in> set hs. 0 \<le> h"
  shows "run demoMac s (map postRecord hs) = s\<lparr>scores := scores s @ map admitted hs\<rparr>"
  using assms
proof (induction hs arbitrary: s)
  case Nil
  then show ?case by (simp add: run_def)
next
  case (Cons h hs)
  then have "serve demoMac s (postRecord h) = s\<lparr>scores := scores s @ [admitted h]\<rparr>"
    by (simp add: serve_record)
  moreover have "run demoMac (s\<lparr>scores := scores s @ [admitted h]\<rparr>) (map postRecord hs)
      = s\<lparr>scores := (scores s @ [admitted h]) @ map admitted hs\<rparr>"
    using Cons.IH [of "s\<lparr>scores := scores s @ [admitted h]\<rparr>"] Cons.prems by simp
  ultimately show ?case by (simp add: run_def)
qed

lemma run_append: "run hmac s (rs @ rs') = run hmac (run hmac s rs) rs'"
  by (simp add: run_def)

text \<open>Sorting the stored scores of the concrete runs.\<close>

lemma scoreCmp_admitted: "scoreCmp (admitted a) (admitted b) < 0 \<longleftrightarrow> a < b"
  by (simp add: scoreCmp_neg_iff admitted_def submission_def)

lemma rankedBefore_admitted: "rankedBefore (admitted a) (admitted b) \<longleftrightarrow> a \<le> b"
  by (auto simp: rankedBefore_def admitted_def submission_def)

lemma sort_best_first:
  assumes "sorted hs" and "\<forall>h \<in> set hs. h < b"
  shows "SortStableFunc scoreCmp (map admitted (b # hs)) = map admitted hs @ [admitted b]"
proof -
  have "sorted_wrt rankedBefore (map admitted hs)"
    using assms(1) by (simp add: sorted_wrt_map rankedBefore_admitted)
  then have "SortStableFunc scoreCmp (map admitted hs) = map admitted hs"
    by (rule SortStableFunc_sorted)
  then have "SortStableFunc scoreCmp (map admitted (b # hs))
      = insertStable scoreCmp (admitted b) (map admitted hs)"
    by (simp add: SortStableFunc_def)
  moreover have "\<forall>y \<in> set (map admitted hs). scoreCmp y (admitted b) < 0"
    using assms(2) by (auto simp: scoreCmp_admitted)
  ultimately show ?thesis by (simp add: insertStable_last)
qed

lemma sort_equal_keys:
  "SortStableFunc scoreCmp [scoreCCC, admitted 90, scoreBBB, scoreDDD]
     = [scoreBBB, scoreCCC, scoreDDD, admitted 90]"
  "SortStableFunc scoreCmp [scoreBBB, scoreCCC, scoreDDD] = [scoreBBB, scoreCCC, scoreDDD]"
  by (simp_all add: SortStableFunc_def scoreCmp_def cmp_Compare_def scoreBBB_def scoreCCC_def
        scoreDDD_def admitted_def submission_def)

text \<open>The handlers keep the tokens of the stored scores zero.\<close>

lemma tokensZero_addScore: "tokensZero s \<Longrightarrow> tokensZero (snd (addScore hmac now body s))"
  by (cases body) (auto simp: addScore_DecodeError addScore_Decoded tokensZero_def)

lemma tokensZero_truncate: "tokensZero s \<Longrightarrow> tokensZero (snd (truncateAndGetScores n s))"
proof (cases "0 \<le> n")
  case True
  assume "tokensZero s"
  then have "\<forall>sc \<in> set (scores s). Token sc = zeroToken"
    by (simp add: tokensZero_def list_all_iff)
  then have "\<forall>sc \<in> set (take (nat n) (SortStableFunc scoreCmp (scores s))). Token sc = zeroToken"
    by (auto dest!: in_set_takeD simp: set_SortStableFunc)
  with True show ?thesis
    by (simp add: truncateAndGetScores_nonneg tokensZero_def list_all_iff)
next
  case False
  assume "tokensZero s"
  with False show ?thesis
    by (simp add: truncateAndGetScores_neg tokensZero_def list_all_iff set_SortStableFunc)
qed

lemma tokensZero_serve: "tokensZero s \<Longrightarrow> tokensZero (serve hmac s r)"
proof (cases r)
  case (PostStart t)
  assume "tokensZero s"
  with PostStart show ?thesis by (simp add: getToken_def Let_def)
next
  case (PostRecord now body)
  assume "tokensZero s"
  with PostRecord show ?thesis by (simp add: tokensZero_addScore)
next
  case (PostReset f)
  assume "tokensZero s"
  with PostReset show ?thesis
    by (cases f) (simp_all add: resetScore_def tokensZero_def)
next
  case EventsTick
  assume "tokensZero s"
  with EventsTick show ?thesis by (simp add: streamTick_def tokensZero_truncate)
qed

lemma tokensZero_run: "tokensZero s \<Longrightarrow> tokensZero (run hmac s rs)"
  unfolding run_def by (induction rs arbitrary: s) (simp_all add: tokensZero_serve)

section \<open>The claims\<close>

subsection \<open>C1: the order of the leaderboard\<close>

text \<open>
  C1 asks for the returned sequence to be sorted by \<open>remaining_health\<close> descending,
  ties by \<open>elapsed\<close> ascending, so that \<open>CCC\<close> (elapsed 5) ranks above \<open>BBB\<close>
  (elapsed 10). The code does the opposite: \<open>scoreCmp\<close> is negative when its first
  argument is the worse score, the sort is ascending and the truncation keeps the
  front. After twenty-one accepted submissions, of health 100 and then 1 to 20, one
  tick of the stream leaves the twenty scores of health 1 to 20 and has dropped the
  best one; of the healths 90, 50 and 10 with \<open>n = 2\<close> the code keeps 10 and 50;
  and \<open>BBB\<close> stands above \<open>CCC\<close> whichever was submitted first.
\<close>

theorem best_score_dropped:
  "scores (run demoMac (newServer [1, 2, 3] ''changeme'')
             (map postRecord (100 # [1..20]) @ [EventsTick]))
     = map admitted [1..20]
   \<and> admitted 100 \<notin> set (map admitted [1..20])
   \<and> truncateAndGetScores 2 (demoServer\<lparr>scores := [admitted 90, admitted 50, admitted 10]\<rparr>)
       = (Inr [admitted 10, admitted 50], demoServer\<lparr>scores := [admitted 10, admitted 50]\<rparr>)
   \<and> \<not> sorted_wrt specRankedBefore [admitted 10, admitted 50]
   \<and> fst (truncateAndGetScores NUM_SCORES (demoServer\<lparr>scores := [scoreBBB, scoreCCC]\<rparr>))
       = Inr [scoreBBB, scoreCCC]
   \<and> fst (truncateAndGetScores NUM_SCORES (demoServer\<lparr>scores := [scoreCCC, scoreBBB]\<rparr>))
       = Inr [scoreBBB, scoreCCC]
   \<and> \<not> sorted_wrt specRankedBefore [scoreBBB, scoreCCC]"
proof -
  define hs :: "int list" where "hs = 100 # [1..20]"
  have r: "run demoMac (newServer [1, 2, 3] ''changeme'') (map postRecord hs)
      = demoServer\<lparr>scores := map admitted hs\<rparr>"
    using run_records [of demoServer hs]
    by (simp add: demoServer_def newServer_def hs_def)
  have "SortStableFunc scoreCmp (map admitted (100 # [1..20]))
      = map admitted [1..20] @ [admitted 100]"
    by (rule sort_best_first) simp_all
  then have "take 20 (SortStableFunc scoreCmp (map admitted hs)) = map admitted [1..20]"
    unfolding hs_def by simp
  then have "scores (run demoMac (newServer [1, 2, 3] ''changeme'')
             (map postRecord hs @ [EventsTick])) = map admitted [1..20]"
    unfolding run_append r
    by (simp add: run_def streamTick_def truncateAndGetScores_nonneg NUM_SCORES_def)
  then have a: "scores (run demoMac (newServer [1, 2, 3] ''changeme'')
             (map postRecord (100 # [1..20]) @ [EventsTick])) = map admitted [1..20]"
    unfolding hs_def .
  have b: "admitted 100 \<notin> set (map admitted [1..20])"
    by (auto simp: admitted_def submission_def)
  have "SortStableFunc scoreCmp [admitted 90, admitted 50, admitted 10]
      = [admitted 10, admitted 50, admitted 90]"
    by (simp add: SortStableFunc_def scoreCmp_admitted)
  then have c: "truncateAndGetScores 2 (demoServer\<lparr>scores := [admitted 90, admitted 50, admitted 10]\<rparr>)
       = (Inr [admitted 10, admitted 50], demoServer\<lparr>scores := [admitted 10, admitted 50]\<rparr>)"
    by (simp add: truncateAndGetScores_nonneg numeral_2_eq_2)
  have d: "\<not> sorted_wrt specRankedBefore [admitted 10, admitted 50]"
    by (simp add: specRankedBefore_def admitted_def submission_def)
  have e: "\<not> sorted_wrt specRankedBefore [scoreBBB, scoreCCC]"
    by (simp add: specRankedBefore_def scoreBBB_def scoreCCC_def)
  show ?thesis
    using a b c d e
    by (simp add: truncateAndGetScores_nonneg NUM_SCORES_def sort_BBB_CCC)
qed

subsection \<open>C2: the length of the player name\<close>

text \<open>
  C2, as the code has it. A submission whose \<open>player_name\<close> has 0 or at least 4 bytes
  is rejected with status 400, and so is every name of 0 or at least 4 characters; an
  otherwise valid submission whose name has 1 to 3 bytes is accepted with status 201
  and appended. The bound is on bytes (\<open>len\<close>), for every string.
\<close>

theorem addScore_name_length:
  "(RuneCountInString (PlayerName sc) = 0 \<or> 4 \<le> RuneCountInString (PlayerName sc)
      \<or> length (PlayerName sc) = 0 \<or> 4 \<le> length (PlayerName sc)
     \<longrightarrow> addScore hmac now (Decoded sc) s = (reply StatusBadRequest, s))
   \<and> (1 \<le> length (PlayerName sc) \<and> length (PlayerName sc) \<le> 3
        \<and> Verify hmac s (Token sc) \<and> 0 \<le> RemainingHealth sc
        \<and> Elapsed sc \<le> wallClockElapsed now (Start (Token sc))
     \<longrightarrow> addScore hmac now (Decoded sc) s
           = (reply StatusCreated, s\<lparr>scores := scores s @ [sc\<lparr>Token := zeroToken\<rparr>]\<rparr>))"
proof -
  have "4 \<le> RuneCountInString (PlayerName sc) \<Longrightarrow> 4 \<le> length (PlayerName sc)"
    using RuneCount_le_length [of "PlayerName sc"] by linarith
  then show ?thesis
    by (auto simp: addScore_Decoded RuneCount_zero_iff)
qed

theorem addScore_name_length_witness:
  "length (PlayerName (scoreAAA\<lparr>PlayerName := ''ABCD''\<rparr>)) = 4
   \<and> addScore demoMac 1700000060 (Decoded (scoreAAA\<lparr>PlayerName := ''ABCD''\<rparr>)) demoServer
       = (reply StatusBadRequest, demoServer)
   \<and> length (PlayerName scoreAAA) = 3 \<and> Verify demoMac demoServer (Token scoreAAA)
   \<and> 0 \<le> RemainingHealth scoreAAA
   \<and> Elapsed scoreAAA \<le> wallClockElapsed 1700000060 (Start (Token scoreAAA))
   \<and> addScore demoMac 1700000060 (Decoded scoreAAA) demoServer
       = (reply StatusCreated,
          demoServer\<lparr>scores := scores demoServer @ [scoreAAA\<lparr>Token := zeroToken\<rparr>]\<rparr>)"
  using addScore_name_length [of "scoreAAA\<lparr>PlayerName := ''ABCD''\<rparr>" demoMac 1700000060 demoServer]
    addScore_name_length [of scoreAAA demoMac 1700000060 demoServer]
  by (simp add: scoreAAA_simps Verify_demoToken Start_demoToken wallClockElapsed_demo)

text \<open>
  C2 as written fails on characters of several bytes: a name of two characters and four
  bytes (twice U+00E9) is rejected, in a submission that is accepted under the name
  \<open>AAA\<close>.
\<close>

theorem two_character_name_rejected:
  "RuneCountInString [CHR 0xC3, CHR 0xA9, CHR 0xC3, CHR 0xA9] = 2
   \<and> status (fst (addScore demoMac 1700000060
        (Decoded (scoreAAA\<lparr>PlayerName := [CHR 0xC3, CHR 0xA9, CHR 0xC3, CHR 0xA9]\<rparr>))
        demoServer)) = StatusBadRequest
   \<and> status (fst (addScore demoMac 1700000060 (Decoded scoreAAA) demoServer)) = StatusCreated"
  by (simp add: addScore_Decoded scoreAAA_simps Verify_demoToken Start_demoToken
        wallClockElapsed_demo reply_def inRange_def)

subsection \<open>C3: issued tokens verify\<close>

text \<open>
  C3. For every clock reading \<open>t\<close> (any \<open>int64\<close>), every key and every MAC, the token
  that \<open>getToken\<close> issues passes the token check of \<open>addScore\<close> under the same key
  (\<open>getToken\<close> leaves the server as it is): a submission carrying it is accepted once
  its health, name and elapsed time are valid.
\<close>

theorem Verify_Issue:
  "Verify hmac s (snd (fst (getToken hmac t s)))
   \<and> snd (getToken hmac t s) = s
   \<and> (Token sc = snd (fst (getToken hmac t s)) \<and> 0 \<le> RemainingHealth sc
        \<and> 1 \<le> length (PlayerName sc) \<and> length (PlayerName sc) \<le> 3
        \<and> Elapsed sc \<le> wallClockElapsed now t
      \<longrightarrow> status (fst (addScore hmac now (Decoded sc) s)) = StatusCreated)"
proof -
  have "Start (snd (fst (getToken hmac t s))) = t"
    by (simp add: getToken_def Let_def)
  moreover have "snd (getToken hmac t s) = s"
    by (simp add: getToken_def Let_def)
  ultimately show ?thesis
    using Verify_getToken [of hmac s t]
    by (auto simp: addScore_Decoded reply_def)
qed

theorem Verify_Issue_witness:
  "Token scoreAAA = snd (fst (getToken demoMac 1700000000 demoServer))
   \<and> 0 \<le> RemainingHealth scoreAAA
   \<and> 1 \<le> length (PlayerName scoreAAA) \<and> length (PlayerName scoreAAA) \<le> 3
   \<and> Elapsed scoreAAA \<le> wallClockElapsed 1700000060 1700000000
   \<and> status (fst (addScore demoMac 1700000060 (Decoded scoreAAA) demoServer)) = StatusCreated"
  using Verify_Issue [of demoMac demoServer 1700000000 scoreAAA 1700000060]
  by (simp add: scoreAAA_simps wallClockElapsed_demo demoToken_def)

subsection \<open>C4: malformed and mismatching signatures\<close>

text \<open>
  C4. A token whose \<open>hmac\<close> field is not valid base64, or decodes to bytes other than
  the MAC of the little-endian encoding of its \<open>start\<close> under the server's key, fails
  the check, and the submission is rejected with status 400.
\<close>

theorem addScore_rejects_bad_token:
  assumes "DecodeString (Hmac (Token sc)) = None
           \<or> (\<exists>signature. DecodeString (Hmac (Token sc)) = Some signature
                \<and> signature \<noteq> hmac (hmacKey s) (PutUint64 (Start (Token sc))))"
  shows "\<not> Verify hmac s (Token sc)
         \<and> addScore hmac now (Decoded sc) s = (reply StatusBadRequest, s)"
  using assms by (auto simp: addScore_Decoded Verify_iff)

theorem addScore_rejects_bad_token_witness:
  "DecodeString (Hmac (Token (scoreAAA\<lparr>Token := \<lparr>Start = 1700000000, Hmac = ''???''\<rparr>\<rparr>))) = None
   \<and> addScore demoMac 1700000060
        (Decoded (scoreAAA\<lparr>Token := \<lparr>Start = 1700000000, Hmac = ''???''\<rparr>\<rparr>)) demoServer
       = (reply StatusBadRequest, demoServer)
   \<and> DecodeString (Hmac (Token (scoreAAA\<lparr>Token := demoToken\<lparr>Start := 1699999000\<rparr>\<rparr>)))
       = Some (demoMac (hmacKey demoServer) (PutUint64 1700000000))
   \<and> demoMac (hmacKey demoServer) (PutUint64 1700000000)
       \<noteq> demoMac (hmacKey demoServer)
           (PutUint64 (Start (Token (scoreAAA\<lparr>Token := demoToken\<lparr>Start := 1699999000\<rparr>\<rparr>))))
   \<and> addScore demoMac 1700000060
        (Decoded (scoreAAA\<lparr>Token := demoToken\<lparr>Start := 1699999000\<rparr>\<rparr>)) demoServer
       = (reply StatusBadRequest, demoServer)"
proof -
  have a: "DecodeString ''???'' = None"
    by (simp add: DecodeString_def)
  have b: "DecodeString (Hmac demoToken) = Some (demoMac (hmacKey demoServer) (PutUint64 1700000000))"
    using Verify_demoToken by (simp add: Verify_iff Start_demoToken)
  have c: "demoMac (hmacKey demoServer) (PutUint64 1700000000)
       \<noteq> demoMac (hmacKey demoServer) (PutUint64 1699999000)"
    using PutUint64_demo by (simp add: demoMac_def)
  show ?thesis
    using a b c
      addScore_rejects_bad_token [of "scoreAAA\<lparr>Token := \<lparr>Start = 1700000000, Hmac = ''???''\<rparr>\<rparr>"
        demoMac demoServer 1700000060]
      addScore_rejects_bad_token [of "scoreAAA\<lparr>Token := demoToken\<lparr>Start := 1699999000\<rparr>\<rparr>"
        demoMac demoServer 1700000060]
    by simp
qed

subsection \<open>C5: the elapsed-time check\<close>

text \<open>
  C5, as the code has it. For a submission with a validly signed token: if the claimed
  \<open>elapsed\<close> exceeds \<open>wallClockElapsed\<close>, it is rejected with status 400 and nothing
  is stored, and the anomaly is logged exactly when the health and name checks, which
  come first, have passed; if \<open>elapsed\<close> is at most \<open>wallClockElapsed\<close> the timing
  check passes, and the submission that reaches it is accepted.
\<close>

theorem addScore_elapsed_check:
  assumes "Verify hmac s (Token sc)"
  shows "(wallClockElapsed now (Start (Token sc)) < Elapsed sc \<longrightarrow>
            status (fst (addScore hmac now (Decoded sc) s)) = StatusBadRequest
            \<and> snd (addScore hmac now (Decoded sc) s) = s
            \<and> logged (fst (addScore hmac now (Decoded sc) s)) =
                (if 0 \<le> RemainingHealth sc \<and> 1 \<le> length (PlayerName sc)
                    \<and> length (PlayerName sc) \<le> 3
                 then [OddElapsed (Elapsed sc) (wallClockElapsed now (Start (Token sc)))]
                 else []))
         \<and> (Elapsed sc \<le> wallClockElapsed now (Start (Token sc))
              \<and> 0 \<le> RemainingHealth sc \<and> 1 \<le> length (PlayerName sc)
              \<and> length (PlayerName sc) \<le> 3 \<longrightarrow>
            status (fst (addScore hmac now (Decoded sc) s)) = StatusCreated)"
  using assms by (auto simp: addScore_Decoded reply_def Suc_le_eq)

theorem addScore_elapsed_check_witness:
  "Verify demoMac demoServer (Token (scoreAAA\<lparr>Elapsed := 1000000\<rparr>))
   \<and> wallClockElapsed 1700000060 (Start (Token (scoreAAA\<lparr>Elapsed := 1000000\<rparr>)))
       < Elapsed (scoreAAA\<lparr>Elapsed := 1000000\<rparr>)
   \<and> addScore demoMac 1700000060 (Decoded (scoreAAA\<lparr>Elapsed := 1000000\<rparr>)) demoServer
       = (\<lparr>status = StatusBadRequest, logged = [OddElapsed 1000000 60]\<rparr>, demoServer)
   \<and> Verify demoMac demoServer (Token (scoreAAA\<lparr>Elapsed := 60\<rparr>))
   \<and> Elapsed (scoreAAA\<lparr>Elapsed := 60\<rparr>)
       \<le> wallClockElapsed 1700000060 (Start (Token (scoreAAA\<lparr>Elapsed := 60\<rparr>)))
   \<and> status (fst (addScore demoMac 1700000060 (Decoded (scoreAAA\<lparr>Elapsed := 60\<rparr>)) demoServer))
       = StatusCreated"
  using addScore_elapsed_check [of demoMac demoServer "scoreAAA\<lparr>Elapsed := 1000000\<rparr>" 1700000060]
    addScore_elapsed_check [of demoMac demoServer "scoreAAA\<lparr>Elapsed := 60\<rparr>" 1700000060]
  by (simp add: scoreAAA_simps Verify_demoToken Start_demoToken wallClockElapsed_demo
        prod_eq_iff)

text \<open>
  C5 as written fails in its logging part: a validly signed submission with health
  \<open>-1\<close> and an elapsed time beyond the wall clock is rejected by the health check, and
  no line is logged.
\<close>

theorem odd_elapsed_not_logged:
  "Verify demoMac demoServer (Token (scoreAAA\<lparr>Elapsed := 1000000, RemainingHealth := - 1\<rparr>))
   \<and> wallClockElapsed 1700000060
        (Start (Token (scoreAAA\<lparr>Elapsed := 1000000, RemainingHealth := - 1\<rparr>)))
       < Elapsed (scoreAAA\<lparr>Elapsed := 1000000, RemainingHealth := - 1\<rparr>)
   \<and> addScore demoMac 1700000060
        (Decoded (scoreAAA\<lparr>Elapsed := 1000000, RemainingHealth := - 1\<rparr>)) demoServer
       = (\<lparr>status = StatusBadRequest, logged = []\<rparr>, demoServer)"
  by (simp add: addScore_Decoded scoreAAA_simps Verify_demoToken Start_demoToken
        wallClockElapsed_demo reply_def)

subsection \<open>C6: a rejection changes nothing\<close>

text \<open>
  C6. Whenever a submission fails a validation step (undecodable JSON, bad base64,
  signature mismatch, negative health, name length out of bounds, or an elapsed time
  beyond the wall clock), the handler answers 400 and the server is exactly as before.
\<close>

theorem addScore_rejection_atomic:
  assumes "(\<exists>err. body = DecodeError err)
           \<or> (\<exists>sc. body = Decoded sc
                \<and> (DecodeString (Hmac (Token sc)) = None
                    \<or> DecodeString (Hmac (Token sc))
                        \<noteq> Some (hmac (hmacKey s) (PutUint64 (Start (Token sc))))
                    \<or> RemainingHealth sc < 0
                    \<or> length (PlayerName sc) < 1 \<or> 3 < length (PlayerName sc)
                    \<or> wallClockElapsed now (Start (Token sc)) < Elapsed sc))"
  shows "status (fst (addScore hmac now body s)) = StatusBadRequest
         \<and> snd (addScore hmac now body s) = s"
  using assms
  by (auto simp: addScore_DecodeError addScore_Decoded Verify_iff reply_def)

theorem addScore_rejection_atomic_witness:
  "RemainingHealth (scoreAAA\<lparr>RemainingHealth := - 1\<rparr>) < 0
   \<and> status (fst (addScore demoMac 1700000060
        (Decoded (scoreAAA\<lparr>RemainingHealth := - 1\<rparr>))
        (demoServer\<lparr>scores := [scoreBBB]\<rparr>))) = StatusBadRequest
   \<and> scores (snd (addScore demoMac 1700000060
        (Decoded (scoreAAA\<lparr>RemainingHealth := - 1\<rparr>))
        (demoServer\<lparr>scores := [scoreBBB]\<rparr>))) = [scoreBBB]
   \<and> status (fst (addScore demoMac 1700000060 (DecodeError ''unexpected EOF'')
        (demoServer\<lparr>scores := [scoreBBB]\<rparr>))) = StatusBadRequest
   \<and> scores (snd (addScore demoMac 1700000060 (DecodeError ''unexpected EOF'')
        (demoServer\<lparr>scores := [scoreBBB]\<rparr>))) = [scoreBBB]"
  using addScore_rejection_atomic [where body = "Decoded (scoreAAA\<lparr>RemainingHealth := - 1\<rparr>)"
      and s = "demoServer\<lparr>scores := [scoreBBB]\<rparr>" and hmac = demoMac and now = 1700000060]
    addScore_rejection_atomic [where body = "DecodeError ''unexpected EOF''"
      and s = "demoServer\<lparr>scores := [scoreBBB]\<rparr>" and hmac = demoMac and now = 1700000060]
  by simp

subsection \<open>C7: ranking again changes nothing\<close>

text \<open>
  C7. After a call of \<open>truncateAndGetScores\<close> has returned \<open>r\<close>, whenever the stored
  collection has length at most \<open>n\<close>, calling \<open>truncateAndGetScores n\<close> returns \<open>r\<close>
  again and leaves the stored collection equal to it. (The sort is stable,
  \<open>SortStableFunc_stable\<close>, and leaves a sorted slice as it is.)
\<close>

theorem truncateAndGetScores_idempotent:
  assumes "truncateAndGetScores m s = (Inr r, s1)" and "int (length (scores s1)) \<le> n"
  shows "truncateAndGetScores n s1 = (Inr r, s1) \<and> scores s1 = r"
proof -
  from assms(1) have m: "0 \<le> m"
    by (cases "0 \<le> m") (auto simp: truncateAndGetScores_neg)
  from assms(1) have r: "r = take (nat m) (SortStableFunc scoreCmp (scores s))"
    and s1: "s1 = s\<lparr>scores := r\<rparr>"
    by (auto simp: truncateAndGetScores_nonneg [OF m])
  have "sorted_wrt rankedBefore r"
    unfolding r by (rule sorted_wrt_take) (rule sorted_SortStableFunc)
  then have "SortStableFunc scoreCmp (scores s1) = r"
    by (simp add: s1 SortStableFunc_sorted)
  moreover have "0 \<le> n" using assms(2) by linarith
  ultimately show ?thesis
    using assms(2) by (simp add: truncateAndGetScores_nonneg s1)
qed

theorem truncateAndGetScores_idempotent_witness:
  "truncateAndGetScores 3
       (demoServer\<lparr>scores := [scoreCCC, admitted 90, scoreBBB, scoreDDD]\<rparr>)
     = (Inr [scoreBBB, scoreCCC, scoreDDD],
        demoServer\<lparr>scores := [scoreBBB, scoreCCC, scoreDDD]\<rparr>)
   \<and> int (length (scores (demoServer\<lparr>scores := [scoreBBB, scoreCCC, scoreDDD]\<rparr>))) \<le> 20
   \<and> rankKey scoreCCC = rankKey scoreDDD \<and> scoreCCC \<noteq> scoreDDD
   \<and> truncateAndGetScores 20 (demoServer\<lparr>scores := [scoreBBB, scoreCCC, scoreDDD]\<rparr>)
     = (Inr [scoreBBB, scoreCCC, scoreDDD],
        demoServer\<lparr>scores := [scoreBBB, scoreCCC, scoreDDD]\<rparr>)"
proof -
  have h: "truncateAndGetScores 3
       (demoServer\<lparr>scores := [scoreCCC, admitted 90, scoreBBB, scoreDDD]\<rparr>)
     = (Inr [scoreBBB, scoreCCC, scoreDDD],
        demoServer\<lparr>scores := [scoreBBB, scoreCCC, scoreDDD]\<rparr>)"
    by (simp add: truncateAndGetScores_nonneg sort_equal_keys numeral_3_eq_3)
  have k: "rankKey scoreCCC = rankKey scoreDDD \<and> scoreCCC \<noteq> scoreDDD"
    by (simp add: rankKey_def scoreCCC_def scoreDDD_def)
  show ?thesis
    using h k truncateAndGetScores_idempotent [OF h, of 20] by simp
qed

subsection \<open>C8: stored scores carry no token\<close>

text \<open>
  C8. In every state the server reaches from its initial state, by any sequence of
  requests, every stored score has the zero token; and an accepted submission is
  appended with its token replaced by the zero token.
\<close>

theorem stored_tokens_zero:
  "tokensZero (run hmac (newServer key pw) rs)
   \<and> (status (fst (addScore hmac now (Decoded sc) s)) = StatusCreated \<longrightarrow>
        scores (snd (addScore hmac now (Decoded sc) s)) = scores s @ [sc\<lparr>Token := zeroToken\<rparr>])"
proof -
  have "tokensZero (newServer key pw)"
    by (simp add: tokensZero_def newServer_def)
  then have "tokensZero (run hmac (newServer key pw) rs)"
    by (rule tokensZero_run)
  then show ?thesis
    by (auto simp: addScore_Decoded reply_def StatusCreated_def StatusBadRequest_def)
qed

theorem stored_tokens_zero_witness:
  "status (fst (addScore demoMac 1700000060 (Decoded scoreAAA) demoServer)) = StatusCreated
   \<and> Token scoreAAA \<noteq> zeroToken
   \<and> scores (snd (addScore demoMac 1700000060 (Decoded scoreAAA) demoServer))
       = [scoreAAA\<lparr>Token := zeroToken\<rparr>]
   \<and> run demoMac (newServer [1, 2, 3] ''changeme'')
        [PostStart 1700000000, PostRecord 1700000060 (Decoded scoreAAA), EventsTick]
       = demoServer\<lparr>scores := [scoreAAA\<lparr>Token := zeroToken\<rparr>]\<rparr>
   \<and> tokensZero (run demoMac (newServer [1, 2, 3] ''changeme'')
        [PostStart 1700000000, PostRecord 1700000060 (Decoded scoreAAA), EventsTick])"
proof -
  have a: "addScore demoMac 1700000060 (Decoded scoreAAA) demoServer
     = (reply StatusCreated, demoServer\<lparr>scores := [scoreAAA\<lparr>Token := zeroToken\<rparr>]\<rparr>)"
    by (simp add: addScore_Decoded scoreAAA_simps Verify_demoToken Start_demoToken
        wallClockElapsed_demo) (simp add: demoServer_def newServer_def)
  have b: "Token scoreAAA \<noteq> zeroToken"
    by (simp add: scoreAAA_simps zeroToken_def demoToken_def getToken_def Let_def)
  have c: "run demoMac (newServer [1, 2, 3] ''changeme'')
        [PostStart 1700000000, PostRecord 1700000060 (Decoded scoreAAA), EventsTick]
       = demoServer\<lparr>scores := [scoreAAA\<lparr>Token := zeroToken\<rparr>]\<rparr>"
    by (simp add: run_def getToken_def Let_def a demoServer_def [symmetric] streamTick_def
          truncateAndGetScores_nonneg NUM_SCORES_def SortStableFunc_def)
  show ?thesis
    using a b c
      stored_tokens_zero [of demoMac "[1, 2, 3]" "''changeme''"
        "[PostStart 1700000000, PostRecord 1700000060 (Decoded scoreAAA), EventsTick]"
        1700000060 scoreAAA demoServer]
    by (simp add: reply_def)
qed

subsection \<open>C9: whole seconds\<close>

text \<open>
  C9. The wall-clock time is a whole number of seconds. A submission made in the same
  Unix second as its token was issued, with a claimed elapsed time strictly between 0
  and 1, is compared against a wall-clock time of 0 and rejected with status 400, the
  server unchanged; when its token, health and name are valid it is the timing check
  that rejects it, and logs it.
\<close>

theorem same_second_fraction_rejected:
  assumes "Start (Token sc) = now" and "0 < Elapsed sc" and "Elapsed sc < 1"
  shows "wallClockElapsed t start \<in> \<int>
         \<and> wallClockElapsed now (Start (Token sc)) = 0
         \<and> status (fst (addScore hmac now (Decoded sc) s)) = StatusBadRequest
         \<and> snd (addScore hmac now (Decoded sc) s) = s
         \<and> (Verify hmac s (Token sc) \<and> 0 \<le> RemainingHealth sc
              \<and> 1 \<le> length (PlayerName sc) \<and> length (PlayerName sc) \<le> 3 \<longrightarrow>
            logged (fst (addScore hmac now (Decoded sc) s)) = [OddElapsed (Elapsed sc) 0])"
proof -
  have "wallClockElapsed t start \<in> \<int>"
    by (simp add: wallClockElapsed_def float64_def)
  with assms show ?thesis
    by (auto simp: addScore_Decoded wallClockElapsed_same reply_def)
qed

theorem same_second_fraction_rejected_witness:
  "Start (Token (scoreAAA\<lparr>Elapsed := 1 / 2\<rparr>)) = 1700000000
   \<and> 0 < Elapsed (scoreAAA\<lparr>Elapsed := 1 / 2\<rparr>) \<and> Elapsed (scoreAAA\<lparr>Elapsed := 1 / 2\<rparr>) < 1
   \<and> addScore demoMac 1700000000 (Decoded (scoreAAA\<lparr>Elapsed := 1 / 2\<rparr>)) demoServer
       = (\<lparr>status = StatusBadRequest, logged = [OddElapsed (1 / 2) 0]\<rparr>, demoServer)"
  using same_second_fraction_rejected [where sc = "scoreAAA\<lparr>Elapsed := 1 / 2\<rparr>"
      and now = 1700000000 and hmac = demoMac and s = demoServer]
  by (simp add: scoreAAA_simps Verify_demoToken Start_demoToken prod_eq_iff)

subsection \<open>C10: when truncation panics\<close>

text \<open>
  C10. For every \<open>n \<ge> 0\<close>, \<open>truncateAndGetScores n\<close> returns, and the stored
  collection then has length \<open>min n\<close> of the previous length; for \<open>n < 0\<close> the slice
  expression panics; the only caller, \<open>stream\<close>, passes \<open>NUM_SCORES = 20\<close>, so its
  call always returns.
\<close>

theorem truncateAndGetScores_total:
  "(0 \<le> n \<longrightarrow>
      (\<exists>r s'. truncateAndGetScores n s = (Inr r, s') \<and> scores s' = r
         \<and> length (scores s') = min (nat n) (length (scores s))))
   \<and> (n < 0 \<longrightarrow> fst (truncateAndGetScores n s) = Inl SliceBoundsOutOfRange)
   \<and> 0 \<le> NUM_SCORES \<and> streamTick s = truncateAndGetScores NUM_SCORES s
   \<and> (\<exists>r. fst (streamTick s) = Inr r)"
  by (simp add: truncateAndGetScores_nonneg truncateAndGetScores_neg streamTick_def
        NUM_SCORES_def length_SortStableFunc min.commute)

theorem truncateAndGetScores_total_witness:
  "(0::int) \<le> 1 \<and> truncateAndGetScores 1 (demoServer\<lparr>scores := [scoreCCC, scoreBBB]\<rparr>)
       = (Inr [scoreBBB], demoServer\<lparr>scores := [scoreBBB]\<rparr>)
   \<and> (- 1 :: int) < 0
   \<and> fst (truncateAndGetScores (- 1) (demoServer\<lparr>scores := [scoreCCC, scoreBBB]\<rparr>))
       = Inl SliceBoundsOutOfRange"
  using truncateAndGetScores_total [of 1 "demoServer\<lparr>scores := [scoreCCC, scoreBBB]\<rparr>"]
    truncateAndGetScores_total [of "- 1" "demoServer\<lparr>scores := [scoreCCC, scoreBBB]\<rparr>"]
  by (simp add: truncateAndGetScores_nonneg sort_BBB_CCC)

end
